theory Spec2Isabelle
  imports Complex_Main "HOL-Library.Multiset" "HOL-Library.Char_ord" "HOL-Library.List_Lexorder"
begin

section \<open>Python strings\<close>

text \<open>
  Names are modelled as \<open>string\<close> (lists of characters) and the model covers ASCII text:
  one \<open>char\<close> is one Python character, \<open>len\<close> is \<open>length\<close>, and the order on strings
  (used by \<open>sorted\<close>) is the lexicographic order on character codes.
\<close>

definition is_space :: "char \<Rightarrow> bool" where
  \<comment> \<open>\<open>str.isspace\<close> on one ASCII character: TAB, LF, VT, FF, CR, FS, GS, RS, US, SPACE.\<close>
  "is_space c \<longleftrightarrow>
     c \<in> set [CHR 0x09, CHR 0x0A, CHR 0x0B, CHR 0x0C, CHR 0x0D,
                CHR 0x1C, CHR 0x1D, CHR 0x1E, CHR 0x1F, CHR '' '']"

definition lower_char :: "char \<Rightarrow> char" where
  "lower_char c =
     (case map_of (zip ''ABCDEFGHIJKLMNOPQRSTUVWXYZ'' ''abcdefghijklmnopqrstuvwxyz'') c of
        Some d \<Rightarrow> d | None \<Rightarrow> c)"

definition upper_char :: "char \<Rightarrow> char" where
  "upper_char c =
     (case map_of (zip ''abcdefghijklmnopqrstuvwxyz'' ''ABCDEFGHIJKLMNOPQRSTUVWXYZ'') c of
        Some d \<Rightarrow> d | None \<Rightarrow> c)"

definition lower :: "string \<Rightarrow> string" where
  \<comment> \<open>\<open>str.lower()\<close>\<close>
  "lower s = map lower_char s"

definition capitalize :: "string \<Rightarrow> string" where
  \<comment> \<open>\<open>str.capitalize()\<close>: first character upper-cased, the rest lower-cased.\<close>
  "capitalize s = (case s of [] \<Rightarrow> [] | c # cs \<Rightarrow> upper_char c # lower cs)"

definition strip :: "string \<Rightarrow> string" where
  \<comment> \<open>\<open>str.strip()\<close>: leading and trailing whitespace removed.\<close>
  "strip s = rev (dropWhile is_space (rev (dropWhile is_space s)))"

fun split_on :: "char \<Rightarrow> string \<Rightarrow> string \<Rightarrow> string list" where
  \<comment> \<open>\<open>s.split(sep)\<close> for a one-character separator; the first argument is the piece
      being read. Empty pieces are kept.\<close>
  "split_on sep cur [] = [cur]"
| "split_on sep cur (c # cs) =
     (if c = sep then cur # split_on sep [] cs else split_on sep (cur @ [c]) cs)"

fun tokens :: "string \<Rightarrow> string \<Rightarrow> string list" where
  \<comment> \<open>\<open>s.split()\<close> with no separator: maximal runs of non-whitespace characters.\<close>
  "tokens cur [] = (if cur = [] then [] else [cur])"
| "tokens cur (c # cs) =
     (if is_space c then (if cur = [] then tokens [] cs else cur # tokens [] cs)
      else tokens (cur @ [c]) cs)"

definition split_ws :: "string \<Rightarrow> string list" where
  "split_ws s = tokens [] s"

fun join :: "string \<Rightarrow> string list \<Rightarrow> string" where
  \<comment> \<open>\<open>sep.join(parts)\<close>\<close>
  "join sep [] = []"
| "join sep [p] = p"
| "join sep (p # q # ps) = p @ sep @ join sep (q # ps)"

section \<open>The similarity scorers of rapidfuzz\<close>

fun lcs_len :: "'a list \<Rightarrow> 'a list \<Rightarrow> nat" where
  \<comment> \<open>Length of a longest common subsequence.\<close>
  "lcs_len [] ys = 0"
| "lcs_len (x # xs) [] = 0"
| "lcs_len (x # xs) (y # ys) =
     (if x = y then Suc (lcs_len xs ys)
      else max (lcs_len xs (y # ys)) (lcs_len (x # xs) ys))"

text \<open>
  Modelled from the spec: \<open>fuzz.ratio\<close> of the rapidfuzz library is called by the
  repository but is not under src/. The spec describes it as a "normalized
  edit-distance-based similarity (Levenshtein-style ratio scaled to 0-100, where 100 =
  identical strings, 0 = completely dissimilar)". The model is the library's documented
  normalized Indel similarity: with insertions and deletions only, the distance of two
  strings is \<open>len1 + len2 - 2 * lcs\<close>, it is normalized by \<open>len1 + len2\<close> (the distance
  of two empty strings normalizes to 0) and the similarity \<open>1 - norm_dist\<close> is scaled
  by 100. Scores are exact rationals here; the library computes them in floating point.
  The subtraction on \<open>nat\<close> never truncates (\<open>indel_distance_no_truncation\<close>).
\<close>

definition ratio :: "string \<Rightarrow> string \<Rightarrow> rat" where
  "ratio s1 s2 =
     (let maximum = length s1 + length s2;
          dist = maximum - 2 * lcs_len s1 s2;
          norm_dist = (if maximum = 0 then 0 else of_nat dist / of_nat maximum)
      in (1 - norm_dist) * 100)"

text \<open>
  Modelled from the spec: \<open>fuzz.token_sort_ratio\<close> of the rapidfuzz library is not
  under src/. The spec: "split each string into whitespace-delimited tokens, sort tokens
  alphabetically, rejoin, then compute a normalized edit-distance-based similarity".
\<close>

definition token_sort_ratio :: "string \<Rightarrow> string \<Rightarrow> rat" where
  "token_sort_ratio s1 s2 =
     (let sorted_s1 = join '' '' (sort (split_ws s1));
          sorted_s2 = join '' '' (sort (split_ws s2))
      in ratio sorted_s1 sorted_s2)"


text \<open>
  Modelled from the spec: \<open>process.extractOne\<close> of the rapidfuzz library is not under
  src/. The spec: "among all reference entries, select the one with the strictly highest
  score; on ties, select the first encountered in reference order (stable,
  deterministic). If the reference set is empty, no match exists." The library returns
  the triple (choice, score, index) or \<open>None\<close>; the loop below keeps the current result
  and replaces it only by a strictly greater score. The call in app.py passes no
  processor and no score cutoff.
\<close>

type_synonym match = "string \<times> rat \<times> nat"

fun extract_loop ::
  "(string \<Rightarrow> string \<Rightarrow> rat) \<Rightarrow> string \<Rightarrow> match option \<Rightarrow> nat \<Rightarrow> string list \<Rightarrow> match option"
where
  "extract_loop scorer query result key [] = result"
| "extract_loop scorer query result key (choice # choices) =
     (let score = scorer query choice;
          result' = (case result of
                       None \<Rightarrow> Some (choice, score, key)
                     | Some (_, best, _) \<Rightarrow>
                         if score > best then Some (choice, score, key) else result)
      in extract_loop scorer query result' (Suc key) choices)"

definition extractOne ::
  "(string \<Rightarrow> string \<Rightarrow> rat) \<Rightarrow> string \<Rightarrow> string list \<Rightarrow> match option" where
  "extractOne scorer query choices = extract_loop scorer query None 0 choices"

section \<open>app.py: the detector\<close>

datatype py_error = IndexError | KeyError

datatype status = Correct | Possible_Mismatch | Mismatch
  \<comment> \<open>the strings "Correct", "Possible Mismatch" and "Mismatch" with their icons\<close>

record match_result =
  Entered :: string
  Closest_Match :: string
  Match_Score :: rat
  Status :: status

definition sentinel :: string where
  \<comment> \<open>the one-character string holding an em dash (U+2014), written as its UTF-8 bytes;
      it is only stored and compared, never measured\<close>
  "sentinel = [CHR 0xE2, CHR 0x80, CHR 0x94]"

definition status_of :: "rat \<Rightarrow> status" where
  \<comment> \<open>app.py lines 187-192\<close>
  "status_of score =
     (if score \<ge> 95 then Correct
      else if score \<ge> 70 then Possible_Mismatch
      else Mismatch)"

text \<open>
  A cell of a pandas column: \<open>None\<close> is a missing value (NaN), \<open>Some s\<close> a value whose
  \<open>astype(str)\<close> rendering is \<open>s\<close>.
\<close>

type_synonym cell = "string option"

definition dropna :: "cell list \<Rightarrow> string list" where
  "dropna cells = [the c. c \<leftarrow> cells, c \<noteq> None]"


definition normalize_series :: "string list \<Rightarrow> string list" where
  \<comment> \<open>app.py lines 16-18\<close>
  "normalize_series s = map (\<lambda>x. lower (strip x)) s"

definition iloc :: "'a list \<Rightarrow> nat \<Rightarrow> py_error + 'a" where
  \<comment> \<open>positional access; out of range raises IndexError\<close>
  "iloc xs i = (if i < length xs then Inr (xs ! i) else Inl IndexError)"

definition match_one :: "string list \<Rightarrow> string list \<Rightarrow> string \<Rightarrow> py_error + match_result" where
  \<comment> \<open>the body of the loop, app.py lines 177-205\<close>
  "match_one ref_names_display ref_names_norm med =
     (let med_norm = lower (strip med) in
      case extractOne token_sort_ratio med_norm ref_names_norm of
        Some (matched_norm, score, idx) \<Rightarrow>
          (case iloc ref_names_display idx of
             Inl e \<Rightarrow> Inl e
           | Inr closest_display \<Rightarrow>
               Inr \<lparr>Entered = med, Closest_Match = closest_display,
                    Match_Score = score, Status = status_of score\<rparr>)
      | None \<Rightarrow>
          Inr \<lparr>Entered = med, Closest_Match = sentinel,
               Match_Score = 0, Status = Mismatch\<rparr>)"

fun detect_loop ::
  "string list \<Rightarrow> string list \<Rightarrow> match_result list \<Rightarrow> string list \<Rightarrow> py_error + match_result list"
where
  \<comment> \<open>\<open>for med in entered_list: ... results.append(...)\<close>, app.py lines 175-205\<close>
  "detect_loop ref_names_display ref_names_norm results [] = Inr results"
| "detect_loop ref_names_display ref_names_norm results (med # entered_list) =
     (case match_one ref_names_display ref_names_norm med of
        Inl e \<Rightarrow> Inl e
      | Inr r \<Rightarrow>
          detect_loop ref_names_display ref_names_norm (results @ [r]) entered_list)"

definition detect :: "cell list \<Rightarrow> string list \<Rightarrow> py_error + match_result list" where
  \<comment> \<open>app.py lines 171-205, from the cells of the 'Medicine Name' column\<close>
  "detect cells entered_list =
     (let ref_names_display = map strip (dropna cells);
          ref_names_norm = normalize_series ref_names_display
      in detect_loop ref_names_display ref_names_norm [] entered_list)"

subsection \<open>Building the entered list\<close>

record upload =
  selected :: "cell list"  \<comment> \<open>\<open>df_uploaded[selected_col]\<close>\<close>
  use_as_reference :: bool

record run_input =
  uploaded :: "upload option"  \<comment> \<open>\<open>None\<close>: no file, or an empty one\<close>
  user_input :: string

fun dedupe :: "string set \<Rightarrow> string list \<Rightarrow> string list" where
  \<comment> \<open>app.py lines 152-153: keep the first of the names equal up to case\<close>
  "dedupe seen [] = []"
| "dedupe seen (x # xs) =
     (if lower x \<in> seen then dedupe seen xs else x # dedupe (insert (lower x) seen) xs)"

definition build_entered :: "run_input \<Rightarrow> string list" where
  \<comment> \<open>app.py lines 133-153\<close>
  "build_entered inp =
     (let from_file =
            (case uploaded inp of
               Some u \<Rightarrow> if \<not> use_as_reference u then map strip (dropna (selected u)) else []
             | None \<Rightarrow> []);
          from_text =
            (if strip (user_input inp) \<noteq> []
             then [strip x. x \<leftarrow> split_on CHR '','' [] (user_input inp), strip x \<noteq> []]
             else []);
          entered_list = [e \<leftarrow> from_file @ from_text. e \<noteq> []]
      in dedupe {} entered_list)"

subsection \<open>Session state and one press of the button\<close>

type_synonym ref_table = "cell list option"
  \<comment> \<open>the cells of the 'Medicine Name' column; \<open>None\<close> when the table has no such column\<close>

type_synonym history_row = "string \<times> match_result"
  \<comment> \<open>Time, then Entered, Closest Match, Match Score, Status\<close>

record session =
  st_results :: "match_result list"  \<comment> \<open>\<open>st.session_state["results"]\<close>\<close>
  st_reference_df :: "ref_table option"  \<comment> \<open>\<open>st.session_state["reference_df"]\<close>\<close>
  history_file :: "history_row list"  \<comment> \<open>the rows of history.csv\<close>

definition load_default_reference :: ref_table where
  "load_default_reference =
     Some (map Some
       [''Paracetamol'', ''Ibuprofen'', ''Metformin'', ''Amoxicillin'', ''Ciprofloxacin'',
        ''Cetirizine'', ''Omeprazole'', ''Atorvastatin'', ''Azithromycin'', ''Amlodipine'',
        ''Ashwagandha'', ''Triphala'', ''Chyawanprash''])"

definition get_reference_df :: "session \<Rightarrow> ref_table" where
  "get_reference_df s =
     (case st_reference_df s of Some t \<Rightarrow> t | None \<Rightarrow> load_default_reference)"

definition save_history :: "string \<Rightarrow> match_result list \<Rightarrow> session \<Rightarrow> session" where
  \<comment> \<open>app.py lines 74-79: every row stamped with the time of the write, then appended\<close>
  "save_history now results_df s = s\<lparr>history_file := history_file s @ map (\<lambda>r. (now, r)) results_df\<rparr>"

datatype outcome =
    Warning_no_names  \<comment> \<open>\<open>st.warning\<close>, line 164\<close>
  | Error_no_column   \<comment> \<open>\<open>st.error\<close>, line 169\<close>
  | Raised py_error
  | Detected "match_result list"

definition set_reference :: "run_input \<Rightarrow> session \<Rightarrow> session" where
  \<comment> \<open>app.py lines 155-160: the selected column becomes the 'Medicine Name' column\<close>
  "set_reference inp s =
     (case uploaded inp of
        Some u \<Rightarrow> if use_as_reference u then s\<lparr>st_reference_df := Some (Some (selected u))\<rparr> else s
      | None \<Rightarrow> s)"

definition run :: "string \<Rightarrow> run_input \<Rightarrow> session \<Rightarrow> outcome \<times> session" where
  \<comment> \<open>app.py lines 131-211; \<open>now\<close> is the time stamp read by \<open>save_history\<close>\<close>
  "run now inp s =
     (let entered_list = build_entered inp;
          s1 = set_reference inp s
      in if entered_list = [] then (Warning_no_names, s1)
         else (case get_reference_df s1 of
                 None \<Rightarrow> (Error_no_column, s1)
               | Some cells \<Rightarrow>
                   (case detect cells entered_list of
                      Inl e \<Rightarrow> (Raised e, s1)
                    | Inr results_df \<Rightarrow>
                        (Detected results_df,
                         save_history now results_df (s1\<lparr>st_results := results_df\<rparr>)))))"

subsection \<open>app.py: Search Medicines\<close>




section \<open>Home.py\<close>

definition medicine_df :: "string list" where
  \<comment> \<open>Home.py lines 16-26, the 'Medicine Name' column\<close>
  "medicine_df =
     [''Paracetamol'', ''Amoxicillin'', ''Ciprofloxacin'', ''Metformin'', ''Ibuprofen'',
      ''Azithromycin'', ''Cetirizine'', ''Omeprazole'', ''Atorvastatin'', ''Amlodipine'']"

datatype flag = Yes | No
  \<comment> \<open>the 'Mismatch' column: the strings "Yes" and "No" with their icons\<close>

record home_result =
  h_Entered :: string
  h_Closest_Match :: "string option"
  h_Match_Score :: rat
  h_Mismatch :: flag

definition clean_medicines :: "string list \<Rightarrow> string list" where
  \<comment> \<open>Home.py line 61, on the \<open>str(m)\<close> of the entries\<close>
  "clean_medicines medicines_list =
     [capitalize (strip m). m \<leftarrow> medicines_list, strip m \<noteq> []]"

definition home_score :: "string \<Rightarrow> string \<Rightarrow> rat" where
  \<comment> \<open>Home.py lines 69 and 105: \<open>fuzz.ratio(med.lower(), ref.lower())\<close>\<close>
  "home_score med ref = ratio (lower med) (lower ref)"

fun best_loop :: "string \<Rightarrow> string option \<times> rat \<Rightarrow> string list \<Rightarrow> string option \<times> rat" where
  \<comment> \<open>Home.py lines 68-72, on the pair (best_match, best_score)\<close>
  "best_loop med (best_match, best_score) [] = (best_match, best_score)"
| "best_loop med (best_match, best_score) (ref # refs) =
     (let score = home_score med ref
      in if score > best_score then best_loop med (Some ref, score) refs
         else best_loop med (best_match, best_score) refs)"

definition home_match :: "string list \<Rightarrow> string \<Rightarrow> home_result" where
  \<comment> \<open>Home.py lines 66-79\<close>
  "home_match refs med =
     (case best_loop med (None, 0) refs of
        (best_match, best_score) \<Rightarrow>
          \<lparr>h_Entered = med, h_Closest_Match = best_match, h_Match_Score = best_score,
           h_Mismatch = (if best_score < 90 then Yes else No)\<rparr>)"

fun home_detect_loop :: "string list \<Rightarrow> home_result list \<Rightarrow> string list \<Rightarrow> home_result list" where
  \<comment> \<open>Home.py lines 64-79\<close>
  "home_detect_loop refs results [] = results"
| "home_detect_loop refs results (med # medicines_list) =
     home_detect_loop refs (results @ [home_match refs med]) medicines_list"

definition home_detect :: "string list \<Rightarrow> string list \<Rightarrow> home_result list" where
  "home_detect refs medicines_list = home_detect_loop refs [] medicines_list"

definition home_status :: "flag \<Rightarrow> status" where
  \<comment> \<open>Home.py lines 134-137: the Analytics page counts "Yes" rows as Mismatch and
      "No" rows as Correct\<close>
  "home_status f = (case f of Yes \<Rightarrow> Mismatch | No \<Rightarrow> Correct)"

type_synonym home_history = "(string \<times> home_result list) list"
  \<comment> \<open>\<open>st.session_state.history\<close>: time and result table of every run\<close>

definition home_run :: "string \<Rightarrow> string list \<Rightarrow> home_history \<Rightarrow> home_result list \<times> home_history" where
  \<comment> \<open>Home.py lines 63-94, the reference being the built-in table; the table and
      chart rendering between the loop and the history append is not modelled\<close>
  "home_run now medicines_list hist =
     (let result_df = home_detect medicine_df medicines_list
      in (result_df, hist @ [(now, result_df)]))"



section \<open>A row-by-row computation of the common-subsequence length\<close>

text \<open>
  \<open>lcs_len\<close> above is the specification. The table below computes the same number row by
  row (\<open>lcs_len_rows\<close> proves it) and is what concrete inputs are evaluated with.
\<close>

fun tails :: "'a list \<Rightarrow> 'a list list" where
  "tails [] = [[]]"
| "tails (y # ys) = (y # ys) # tails ys"

definition row_cell :: "'a \<Rightarrow> 'a \<Rightarrow> nat \<Rightarrow> nat list \<Rightarrow> nat list \<Rightarrow> nat list" where
  "row_cell x y r rs rest = (if x = y then Suc (hd rs) else max r (hd rest)) # rest"

fun next_row :: "'a \<Rightarrow> 'a list \<Rightarrow> nat list \<Rightarrow> nat list" where
  "next_row x (y # ys) (r # rs) = row_cell x y r rs (next_row x ys rs)"
| "next_row x ys row = [0]"

definition lcs_rows :: "'a list \<Rightarrow> 'a list \<Rightarrow> nat" where
  "lcs_rows xs ys = hd (foldr (\<lambda>x row. next_row x ys row) xs (replicate (Suc (length ys)) 0))"

section \<open>Facts about the scorers\<close>

lemma lcs_len_le_left: "lcs_len xs ys \<le> length xs"
  by (induction xs ys rule: lcs_len.induct) auto

lemma lcs_len_le_right: "lcs_len xs ys \<le> length ys"
  by (induction xs ys rule: lcs_len.induct) auto

lemma lcs_len_same: "lcs_len xs xs = length xs"
  by (induction xs) auto

lemma indel_distance_no_truncation: "2 * lcs_len s1 s2 \<le> length s1 + length s2"
  using lcs_len_le_left [of s1 s2] lcs_len_le_right [of s1 s2] by simp

lemma hd_map_tails: "hd (map f (tails ys)) = f ys"
  by (cases ys) auto

lemma next_row_tails:
  "next_row x ys (map (lcs_len xs) (tails ys)) = map (lcs_len (x # xs)) (tails ys)"
proof (induction ys)
  case Nil
  show ?case by simp
next
  case (Cons y ys)
  then show ?case
    by (simp add: row_cell_def hd_map_tails)
qed

lemma map_zero_tails: "map (\<lambda>zs. 0::nat) (tails ys) = replicate (Suc (length ys)) 0"
  by (induction ys) auto

lemma map_lcs_len_Nil: "map (lcs_len []) (tails ys) = replicate (Suc (length ys)) 0"
proof -
  have "lcs_len ([] :: 'a list) = (\<lambda>zs. 0)" by (rule ext) simp
  then show ?thesis by (simp only: map_zero_tails)
qed

lemma foldr_next_row:
  "foldr (\<lambda>x row. next_row x ys row) xs (replicate (Suc (length ys)) 0)
     = map (lcs_len xs) (tails ys)"
proof (induction xs)
  case Nil
  show ?case by (simp only: foldr.simps id_apply map_lcs_len_Nil)
next
  case (Cons x xs)
  then show ?case by (simp only: foldr.simps o_apply next_row_tails)
qed

lemma lcs_len_rows: "lcs_len xs ys = lcs_rows xs ys"
  unfolding lcs_rows_def foldr_next_row by (rule hd_map_tails [symmetric])

lemma ratio_bounds: "0 \<le> ratio s1 s2 \<and> ratio s1 s2 \<le> 100"
proof -
  define m where "m = length s1 + length s2"
  define d where "d = m - 2 * lcs_len s1 s2"
  define nd :: rat where "nd = (if m = 0 then 0 else of_nat d / of_nat m)"
  have r: "ratio s1 s2 = (1 - nd) * 100"
    by (simp add: ratio_def Let_def m_def d_def nd_def)
  have "d \<le> m" by (simp add: d_def)
  then have le: "(of_nat d :: rat) \<le> of_nat m"
    by (simp only: of_nat_le_iff)
  have nd: "0 \<le> nd \<and> nd \<le> 1"
  proof (cases "m = 0")
    case True
    then show ?thesis by (simp add: nd_def)
  next
    case False
    then have "0 < m" by simp
    then have pos: "(0::rat) < of_nat m" by (simp only: of_nat_0_less_iff)
    have "(of_nat d :: rat) / of_nat m \<le> 1"
      using le pos by (simp only: divide_le_eq_1_pos)
    moreover have "0 \<le> (of_nat d :: rat) / of_nat m" by simp
    ultimately show ?thesis using False by (simp only: nd_def if_False) 
  qed
  from nd show ?thesis unfolding r by simp
qed

lemma ratio_same: "ratio s s = 100"
proof -
  have "length s + length s - 2 * lcs_len s s = 0"
    by (simp add: lcs_len_same)
  then show ?thesis
    by (simp add: ratio_def Let_def)
qed

lemma token_sort_ratio_bounds: "0 \<le> token_sort_ratio s1 s2 \<and> token_sort_ratio s1 s2 \<le> 100"
  by (simp add: token_sort_ratio_def Let_def ratio_bounds)

lemmas lcs_eval = lcs_len_rows lcs_rows_def row_cell_def

lemmas string_eval = lower_def lower_char_def upper_char_def capitalize_def strip_def
  is_space_def split_ws_def

section \<open>Facts about the loops\<close>

lemma extract_loop_Some:
  "\<exists>c' b' k'. extract_loop scorer q (Some (c, b, k)) key choices = Some (c', b', k') \<and>
     (\<forall>x\<in>set choices. scorer q x \<le> b') \<and> b \<le> b' \<and>
     ((c', b', k') = (c, b, k) \<or>
      (\<exists>i<length choices. c' = choices ! i \<and> b' = scorer q (choices ! i) \<and>
          k' = key + i \<and> b < b' \<and> (\<forall>x\<in>set (take i choices). scorer q x < b')))"
proof (induction choices arbitrary: c b k key)
  case Nil
  show ?case by simp
next
  case (Cons x xs)
  show ?case
  proof (cases "scorer q x > b")
    case True
    from Cons.IH [of x "scorer q x" key "Suc key"]
    obtain c' b' k' where
      run: "extract_loop scorer q (Some (x, scorer q x, key)) (Suc key) xs = Some (c', b', k')"
      and all: "\<forall>y\<in>set xs. scorer q y \<le> b'"
      and le: "scorer q x \<le> b'"
      and alt: "(c', b', k') = (x, scorer q x, key) \<or>
        (\<exists>i<length xs. c' = xs ! i \<and> b' = scorer q (xs ! i) \<and> k' = Suc key + i \<and>
            scorer q x < b' \<and> (\<forall>y\<in>set (take i xs). scorer q y < b'))"
      by blast
    have step: "extract_loop scorer q (Some (c, b, k)) key (x # xs) = Some (c', b', k')"
      using True run by simp
    have improved: "\<exists>i<length (x # xs). c' = (x # xs) ! i \<and> b' = scorer q ((x # xs) ! i) \<and>
        k' = key + i \<and> b < b' \<and> (\<forall>y\<in>set (take i (x # xs)). scorer q y < b')"
      using alt
    proof
      assume "(c', b', k') = (x, scorer q x, key)"
      then have "0 < length (x # xs) \<and> c' = (x # xs) ! 0 \<and> b' = scorer q ((x # xs) ! 0) \<and>
        k' = key + 0 \<and> b < b' \<and> (\<forall>y\<in>set (take 0 (x # xs)). scorer q y < b')"
        using True by simp
      then show ?thesis by blast
    next
      assume "\<exists>i<length xs. c' = xs ! i \<and> b' = scorer q (xs ! i) \<and> k' = Suc key + i \<and>
            scorer q x < b' \<and> (\<forall>y\<in>set (take i xs). scorer q y < b')"
      then obtain i where i: "i < length xs" "c' = xs ! i" "b' = scorer q (xs ! i)"
        "k' = Suc key + i" "scorer q x < b'" "\<forall>y\<in>set (take i xs). scorer q y < b'"
        by blast
      have "Suc i < length (x # xs) \<and> c' = (x # xs) ! Suc i \<and> b' = scorer q ((x # xs) ! Suc i) \<and>
        k' = key + Suc i \<and> b < b' \<and> (\<forall>y\<in>set (take (Suc i) (x # xs)). scorer q y < b')"
        using i True by auto
      then show ?thesis by blast
    qed
    have "b \<le> b'" using True le by simp
    with step all le improved show ?thesis by auto
  next
    case False
    from Cons.IH [of c b k "Suc key"]
    obtain c' b' k' where
      run: "extract_loop scorer q (Some (c, b, k)) (Suc key) xs = Some (c', b', k')"
      and all: "\<forall>y\<in>set xs. scorer q y \<le> b'"
      and le: "b \<le> b'"
      and alt: "(c', b', k') = (c, b, k) \<or>
        (\<exists>i<length xs. c' = xs ! i \<and> b' = scorer q (xs ! i) \<and> k' = Suc key + i \<and>
            b < b' \<and> (\<forall>y\<in>set (take i xs). scorer q y < b'))"
      by blast
    have step: "extract_loop scorer q (Some (c, b, k)) key (x # xs) = Some (c', b', k')"
      using False run by simp
    have xle: "scorer q x \<le> b'" using False le by simp
    have alt': "(c', b', k') = (c, b, k) \<or>
        (\<exists>i<length (x # xs). c' = (x # xs) ! i \<and> b' = scorer q ((x # xs) ! i) \<and>
          k' = key + i \<and> b < b' \<and> (\<forall>y\<in>set (take i (x # xs)). scorer q y < b'))"
      using alt
    proof
      assume "(c', b', k') = (c, b, k)"
      then show ?thesis by simp
    next
      assume "\<exists>i<length xs. c' = xs ! i \<and> b' = scorer q (xs ! i) \<and> k' = Suc key + i \<and>
            b < b' \<and> (\<forall>y\<in>set (take i xs). scorer q y < b')"
      then obtain i where i: "i < length xs" "c' = xs ! i" "b' = scorer q (xs ! i)"
        "k' = Suc key + i" "b < b'" "\<forall>y\<in>set (take i xs). scorer q y < b'"
        by blast
      have "Suc i < length (x # xs) \<and> c' = (x # xs) ! Suc i \<and> b' = scorer q ((x # xs) ! Suc i) \<and>
        k' = key + Suc i \<and> b < b' \<and> (\<forall>y\<in>set (take (Suc i) (x # xs)). scorer q y < b')"
        using i False by auto
      then show ?thesis by blast
    qed
    from step all le xle alt' show ?thesis by auto
  qed
qed

lemma extractOne_Nil: "extractOne scorer q [] = None"
  by (simp add: extractOne_def)

lemma extractOne_first_max:
  assumes "choices \<noteq> []"
  shows "\<exists>i<length choices.
           extractOne scorer q choices = Some (choices ! i, scorer q (choices ! i), i) \<and>
           (\<forall>x\<in>set choices. scorer q x \<le> scorer q (choices ! i)) \<and>
           (\<forall>x\<in>set (take i choices). scorer q x < scorer q (choices ! i))"
proof -
  from assms obtain x xs where xs: "choices = x # xs" by (cases choices) auto
  from extract_loop_Some [of scorer q x "scorer q x" 0 "Suc 0" xs]
  obtain c' b' k' where
    run: "extract_loop scorer q (Some (x, scorer q x, 0)) (Suc 0) xs = Some (c', b', k')"
    and all: "\<forall>y\<in>set xs. scorer q y \<le> b'"
    and le: "scorer q x \<le> b'"
    and alt: "(c', b', k') = (x, scorer q x, 0) \<or>
      (\<exists>i<length xs. c' = xs ! i \<and> b' = scorer q (xs ! i) \<and> k' = Suc 0 + i \<and>
          scorer q x < b' \<and> (\<forall>y\<in>set (take i xs). scorer q y < b'))"
    by blast
  have one: "extractOne scorer q choices = Some (c', b', k')"
    using run by (simp add: extractOne_def xs)
  from alt show ?thesis
  proof
    assume "(c', b', k') = (x, scorer q x, 0)"
    then have "0 < length choices \<and>
        extractOne scorer q choices = Some (choices ! 0, scorer q (choices ! 0), 0) \<and>
        (\<forall>y\<in>set choices. scorer q y \<le> scorer q (choices ! 0)) \<and>
        (\<forall>y\<in>set (take 0 choices). scorer q y < scorer q (choices ! 0))"
      using one all by (simp add: xs)
    then show ?thesis by blast
  next
    assume "\<exists>i<length xs. c' = xs ! i \<and> b' = scorer q (xs ! i) \<and> k' = Suc 0 + i \<and>
          scorer q x < b' \<and> (\<forall>y\<in>set (take i xs). scorer q y < b')"
    then obtain i where i: "i < length xs" "c' = xs ! i" "b' = scorer q (xs ! i)"
      "k' = Suc 0 + i" "scorer q x < b'" "\<forall>y\<in>set (take i xs). scorer q y < b'"
      by blast
    have "Suc i < length choices \<and>
        extractOne scorer q choices = Some (choices ! Suc i, scorer q (choices ! Suc i), Suc i) \<and>
        (\<forall>y\<in>set choices. scorer q y \<le> scorer q (choices ! Suc i)) \<and>
        (\<forall>y\<in>set (take (Suc i) choices). scorer q y < scorer q (choices ! Suc i))"
      using one all le i by (auto simp: xs)
    then show ?thesis by blast
  qed
qed

lemma match_one_empty:
  "match_one rd [] med =
     Inr \<lparr>Entered = med, Closest_Match = sentinel, Match_Score = 0, Status = Mismatch\<rparr>"
  by (simp add: match_one_def extractOne_Nil)

lemma match_one_first_max:
  assumes "rn \<noteq> []" and "length rd = length rn"
  shows "\<exists>i<length rn.
           match_one rd rn med =
             Inr \<lparr>Entered = med, Closest_Match = rd ! i,
                  Match_Score = token_sort_ratio (lower (strip med)) (rn ! i),
                  Status = status_of (token_sort_ratio (lower (strip med)) (rn ! i))\<rparr> \<and>
           (\<forall>x\<in>set rn. token_sort_ratio (lower (strip med)) x
                           \<le> token_sort_ratio (lower (strip med)) (rn ! i)) \<and>
           (\<forall>x\<in>set (take i rn). token_sort_ratio (lower (strip med)) x
                           < token_sort_ratio (lower (strip med)) (rn ! i))"
proof -
  from extractOne_first_max [OF assms(1), of token_sort_ratio "lower (strip med)"]
  obtain i where i: "i < length rn"
    and one: "extractOne token_sort_ratio (lower (strip med)) rn
                = Some (rn ! i, token_sort_ratio (lower (strip med)) (rn ! i), i)"
    and rest: "(\<forall>x\<in>set rn. token_sort_ratio (lower (strip med)) x
                           \<le> token_sort_ratio (lower (strip med)) (rn ! i)) \<and>
           (\<forall>x\<in>set (take i rn). token_sort_ratio (lower (strip med)) x
                           < token_sort_ratio (lower (strip med)) (rn ! i))"
    by blast
  have "match_one rd rn med =
             Inr \<lparr>Entered = med, Closest_Match = rd ! i,
                  Match_Score = token_sort_ratio (lower (strip med)) (rn ! i),
                  Status = status_of (token_sort_ratio (lower (strip med)) (rn ! i))\<rparr>"
    using i assms(2) by (simp add: match_one_def one iloc_def)
  with i rest show ?thesis by blast
qed

lemma status_of_zero: "status_of 0 = Mismatch"
  by (simp add: status_of_def)

lemma match_one_total:
  assumes "length rd = length rn"
  shows "\<exists>r. match_one rd rn med = Inr r \<and> Entered r = med \<and>
             Status r = status_of (Match_Score r) \<and>
             0 \<le> Match_Score r \<and> Match_Score r \<le> 100"
proof (cases "rn = []")
  case True
  then show ?thesis by (simp add: match_one_empty status_of_zero)
next
  case False
  from match_one_first_max [OF False assms, of med]
  obtain i where "match_one rd rn med =
             Inr \<lparr>Entered = med, Closest_Match = rd ! i,
                  Match_Score = token_sort_ratio (lower (strip med)) (rn ! i),
                  Status = status_of (token_sort_ratio (lower (strip med)) (rn ! i))\<rparr>"
    by blast
  then show ?thesis by (simp add: token_sort_ratio_bounds)
qed

lemma detect_loop_all2:
  assumes "length rd = length rn"
  shows "\<exists>rs. detect_loop rd rn acc meds = Inr (acc @ rs) \<and>
              list_all2 (\<lambda>m r. match_one rd rn m = Inr r) meds rs"
proof (induction meds arbitrary: acc)
  case Nil
  show ?case by simp
next
  case (Cons m meds)
  from match_one_total [OF assms, of m] obtain r where r: "match_one rd rn m = Inr r"
    by blast
  from Cons.IH [of "acc @ [r]"] obtain rs where
    "detect_loop rd rn (acc @ [r]) meds = Inr ((acc @ [r]) @ rs)"
    "list_all2 (\<lambda>m r. match_one rd rn m = Inr r) meds rs"
    by blast
  then have "detect_loop rd rn acc (m # meds) = Inr (acc @ (r # rs)) \<and>
      list_all2 (\<lambda>m r. match_one rd rn m = Inr r) (m # meds) (r # rs)"
    using r by simp
  then show ?case by blast
qed

lemma detect_all2:
  "\<exists>rs. detect cells entered_list = Inr rs \<and>
        list_all2 (\<lambda>m r. match_one (map strip (dropna cells))
                            (normalize_series (map strip (dropna cells))) m = Inr r)
          entered_list rs"
proof -
  have len: "length (map strip (dropna cells))
               = length (normalize_series (map strip (dropna cells)))"
    by (simp add: normalize_series_def)
  from detect_loop_all2 [OF len, of "[]" entered_list]
  show ?thesis by (simp add: detect_def Let_def)
qed

lemma home_detect_loop_map:
  "home_detect_loop refs acc meds = acc @ map (home_match refs) meds"
  by (induction meds arbitrary: acc) auto

lemma home_detect_map: "home_detect refs meds = map (home_match refs) meds"
  by (simp add: home_detect_def home_detect_loop_map)

lemma best_loop_char:
  "\<exists>bm' bs'. best_loop med (bm, bs) refs = (bm', bs') \<and>
     (\<forall>x\<in>set refs. home_score med x \<le> bs') \<and> bs \<le> bs' \<and>
     ((bm', bs') = (bm, bs) \<or>
      (\<exists>i<length refs. bm' = Some (refs ! i) \<and> bs' = home_score med (refs ! i) \<and>
          bs < bs' \<and> (\<forall>x\<in>set (take i refs). home_score med x < bs')))"
proof (induction refs arbitrary: bm bs)
  case Nil
  show ?case by simp
next
  case (Cons x xs)
  show ?case
  proof (cases "home_score med x > bs")
    case True
    from Cons.IH [of "Some x" "home_score med x"]
    obtain bm' bs' where
      run: "best_loop med (Some x, home_score med x) xs = (bm', bs')"
      and all: "\<forall>y\<in>set xs. home_score med y \<le> bs'"
      and le: "home_score med x \<le> bs'"
      and alt: "(bm', bs') = (Some x, home_score med x) \<or>
        (\<exists>i<length xs. bm' = Some (xs ! i) \<and> bs' = home_score med (xs ! i) \<and>
            home_score med x < bs' \<and> (\<forall>y\<in>set (take i xs). home_score med y < bs'))"
      by blast
    have step: "best_loop med (bm, bs) (x # xs) = (bm', bs')"
      using True run by simp
    have improved: "\<exists>i<length (x # xs). bm' = Some ((x # xs) ! i) \<and>
        bs' = home_score med ((x # xs) ! i) \<and> bs < bs' \<and>
        (\<forall>y\<in>set (take i (x # xs)). home_score med y < bs')"
      using alt
    proof
      assume "(bm', bs') = (Some x, home_score med x)"
      then have "0 < length (x # xs) \<and> bm' = Some ((x # xs) ! 0) \<and>
        bs' = home_score med ((x # xs) ! 0) \<and> bs < bs' \<and>
        (\<forall>y\<in>set (take 0 (x # xs)). home_score med y < bs')"
        using True by simp
      then show ?thesis by blast
    next
      assume "\<exists>i<length xs. bm' = Some (xs ! i) \<and> bs' = home_score med (xs ! i) \<and>
            home_score med x < bs' \<and> (\<forall>y\<in>set (take i xs). home_score med y < bs')"
      then obtain i where i: "i < length xs" "bm' = Some (xs ! i)"
        "bs' = home_score med (xs ! i)" "home_score med x < bs'"
        "\<forall>y\<in>set (take i xs). home_score med y < bs'"
        by blast
      have "Suc i < length (x # xs) \<and> bm' = Some ((x # xs) ! Suc i) \<and>
        bs' = home_score med ((x # xs) ! Suc i) \<and> bs < bs' \<and>
        (\<forall>y\<in>set (take (Suc i) (x # xs)). home_score med y < bs')"
        using i True by auto
      then show ?thesis by blast
    qed
    have "bs \<le> bs'" using True le by simp
    with step all le improved show ?thesis by auto
  next
    case False
    from Cons.IH [of bm bs]
    obtain bm' bs' where
      run: "best_loop med (bm, bs) xs = (bm', bs')"
      and all: "\<forall>y\<in>set xs. home_score med y \<le> bs'"
      and le: "bs \<le> bs'"
      and alt: "(bm', bs') = (bm, bs) \<or>
        (\<exists>i<length xs. bm' = Some (xs ! i) \<and> bs' = home_score med (xs ! i) \<and>
            bs < bs' \<and> (\<forall>y\<in>set (take i xs). home_score med y < bs'))"
      by blast
    have step: "best_loop med (bm, bs) (x # xs) = (bm', bs')"
      using False run by simp
    have xle: "home_score med x \<le> bs'" using False le by simp
    have alt': "(bm', bs') = (bm, bs) \<or>
        (\<exists>i<length (x # xs). bm' = Some ((x # xs) ! i) \<and>
          bs' = home_score med ((x # xs) ! i) \<and> bs < bs' \<and>
          (\<forall>y\<in>set (take i (x # xs)). home_score med y < bs'))"
      using alt
    proof
      assume "(bm', bs') = (bm, bs)"
      then show ?thesis by simp
    next
      assume "\<exists>i<length xs. bm' = Some (xs ! i) \<and> bs' = home_score med (xs ! i) \<and>
            bs < bs' \<and> (\<forall>y\<in>set (take i xs). home_score med y < bs')"
      then obtain i where i: "i < length xs" "bm' = Some (xs ! i)"
        "bs' = home_score med (xs ! i)" "bs < bs'"
        "\<forall>y\<in>set (take i xs). home_score med y < bs'"
        by blast
      have "Suc i < length (x # xs) \<and> bm' = Some ((x # xs) ! Suc i) \<and>
        bs' = home_score med ((x # xs) ! Suc i) \<and> bs < bs' \<and>
        (\<forall>y\<in>set (take (Suc i) (x # xs)). home_score med y < bs')"
        using i False by auto
      then show ?thesis by blast
    qed
    from step all le xle alt' show ?thesis by auto
  qed
qed

lemma home_score_bounds: "0 \<le> home_score med ref \<and> home_score med ref \<le> 100"
  by (simp add: home_score_def ratio_bounds)

lemma best_loop_all_zero:
  assumes "\<forall>ref\<in>set refs. home_score med ref = 0"
  shows "best_loop med (None, 0) refs = (None, 0)"
proof -
  from best_loop_char [of med None 0 refs]
  obtain bm' bs' where run: "best_loop med (None, 0) refs = (bm', bs')"
    and alt: "(bm', bs') = (None, 0) \<or>
      (\<exists>i<length refs. bm' = Some (refs ! i) \<and> bs' = home_score med (refs ! i) \<and>
          0 < bs' \<and> (\<forall>x\<in>set (take i refs). home_score med x < bs'))"
    by blast
  from alt show ?thesis
  proof
    assume "(bm', bs') = (None, 0)"
    with run show ?thesis by simp
  next
    assume "\<exists>i<length refs. bm' = Some (refs ! i) \<and> bs' = home_score med (refs ! i) \<and>
          0 < bs' \<and> (\<forall>x\<in>set (take i refs). home_score med x < bs')"
    then obtain i where "i < length refs" "0 < home_score med (refs ! i)" by blast
    with assms show ?thesis by (metis less_irrefl nth_mem)
  qed
qed

lemma best_loop_first_max:
  assumes "\<exists>ref\<in>set refs. 0 < home_score med ref"
  shows "\<exists>i<length refs.
           best_loop med (None, 0) refs = (Some (refs ! i), home_score med (refs ! i)) \<and>
           0 < home_score med (refs ! i) \<and>
           (\<forall>x\<in>set refs. home_score med x \<le> home_score med (refs ! i)) \<and>
           (\<forall>x\<in>set (take i refs). home_score med x < home_score med (refs ! i))"
proof -
  from best_loop_char [of med None 0 refs]
  obtain bm' bs' where run: "best_loop med (None, 0) refs = (bm', bs')"
    and all: "\<forall>x\<in>set refs. home_score med x \<le> bs'"
    and alt: "(bm', bs') = (None, 0) \<or>
      (\<exists>i<length refs. bm' = Some (refs ! i) \<and> bs' = home_score med (refs ! i) \<and>
          0 < bs' \<and> (\<forall>x\<in>set (take i refs). home_score med x < bs'))"
    by blast
  from alt show ?thesis
  proof
    assume "(bm', bs') = (None, 0)"
    then have "\<forall>x\<in>set refs. home_score med x \<le> 0" using all by simp
    with assms show ?thesis by fastforce
  next
    assume "\<exists>i<length refs. bm' = Some (refs ! i) \<and> bs' = home_score med (refs ! i) \<and>
          0 < bs' \<and> (\<forall>x\<in>set (take i refs). home_score med x < bs')"
    then obtain i where "i < length refs" "bm' = Some (refs ! i)"
      "bs' = home_score med (refs ! i)" "0 < bs'"
      "\<forall>x\<in>set (take i refs). home_score med x < bs'"
      by blast
    with run all show ?thesis by auto
  qed
qed

lemma best_loop_score_bounds:
  "0 \<le> snd (best_loop med (None, 0) refs) \<and> snd (best_loop med (None, 0) refs) \<le> 100"
proof -
  from best_loop_char [of med None 0 refs]
  obtain bm' bs' where run: "best_loop med (None, 0) refs = (bm', bs')"
    and alt: "(bm', bs') = (None, 0) \<or>
      (\<exists>i<length refs. bm' = Some (refs ! i) \<and> bs' = home_score med (refs ! i) \<and>
          0 < bs' \<and> (\<forall>x\<in>set (take i refs). home_score med x < bs'))"
    by blast
  from alt have "0 \<le> bs' \<and> bs' \<le> 100"
    using home_score_bounds by auto
  with run show ?thesis by simp
qed

lemma detect_result_props:
  "\<exists>rs. detect cells entered_list = Inr rs \<and>
     (\<forall>r\<in>set rs. Status r = status_of (Match_Score r) \<and>
                   0 \<le> Match_Score r \<and> Match_Score r \<le> 100)"
proof -
  let ?rd = "map strip (dropna cells)"
  let ?rn = "normalize_series ?rd"
  have len: "length ?rd = length ?rn" by (simp add: normalize_series_def)
  from detect_all2 [of cells entered_list] obtain rs where
    rs: "detect cells entered_list = Inr rs"
    and all2: "list_all2 (\<lambda>m r. match_one ?rd ?rn m = Inr r) entered_list rs"
    by blast
  have "Status r = status_of (Match_Score r) \<and> 0 \<le> Match_Score r \<and> Match_Score r \<le> 100"
    if "r \<in> set rs" for r
  proof -
    from that obtain i where i: "i < length rs" "r = rs ! i"
      by (auto simp: in_set_conv_nth)
    have m: "match_one ?rd ?rn (entered_list ! i) = Inr r"
      using list_all2_nthD2 [OF all2 i(1)] i(2) by simp
    from match_one_total [OF len, of "entered_list ! i"] m show ?thesis by auto
  qed
  with rs show ?thesis by blast
qed

lemmas app_eval = detect_def dropna_def normalize_series_def match_one_def extractOne_def
  iloc_def token_sort_ratio_def status_of_def ratio_def

lemmas home_eval = home_match_def medicine_df_def home_score_def ratio_def

lemma sort_tokens_cong:
  assumes "mset (ts1 :: string list) = mset ts2"
  shows "sort ts1 = sort ts2"
proof -
  have "mset (sort ts2) = mset ts1" using assms by simp
  then show ?thesis
    using properties_for_sort [of "sort ts2" ts1] by simp
qed

lemma token_sort_ratio_reordered:
  assumes "mset (split_ws s1) = mset (split_ws s2)"
  shows "token_sort_ratio s1 s2 = 100"
  using sort_tokens_cong [OF assms] by (simp add: token_sort_ratio_def ratio_same)

lemma status_of_100: "status_of 100 = Correct"
  by (simp add: status_of_def)


lemma run_outcome:
  "fst (run now inp s) =
     (if build_entered inp = [] then Warning_no_names
      else case get_reference_df (set_reference inp s) of
             None \<Rightarrow> Error_no_column
           | Some cells \<Rightarrow>
               (case detect cells (build_entered inp) of
                  Inl e \<Rightarrow> Raised e
                | Inr results_df \<Rightarrow> Detected results_df))"
  by (simp add: run_def Let_def split: option.split sum.split)

lemma reference_after_set:
  "st_reference_df (set_reference inp s) =
     (case uploaded inp of
        Some u \<Rightarrow> if use_as_reference u then Some (Some (selected u)) else st_reference_df s
      | None \<Rightarrow> st_reference_df s)"
  by (simp add: set_reference_def split: option.split)

lemma reference_after_run:
  "st_reference_df (snd (run now inp s)) = st_reference_df (set_reference inp s)"
  by (simp add: run_def Let_def save_history_def split: option.split sum.split)

lemma get_reference_df_cong:
  "st_reference_df s = st_reference_df s' \<Longrightarrow> get_reference_df s = get_reference_df s'"
  by (simp add: get_reference_df_def)

section \<open>The claims\<close>

text \<open>
  Claim C6. The batch operation maps the ordered list of entered names to a list of
  results of the same length, one result per entered name and in input order: the names
  read off the results are the entered list itself, so no entry is dropped and a name
  entered twice gets a result each time. In app.py the loop always returns (no index
  error), and its i-th result is the match of the i-th entered name; in Home.py the
  result list is the map of the per-name match over the entered list.
\<close>

theorem C6_batch_one_result_per_name:
  "(\<exists>rs. detect cells entered_list = Inr rs \<and>
         length rs = length entered_list \<and>
         map Entered rs = entered_list \<and>
         list_all2 (\<lambda>m r. match_one (map strip (dropna cells))
                            (normalize_series (map strip (dropna cells))) m = Inr r)
           entered_list rs) \<and>
   length (home_detect refs medicines_list) = length medicines_list \<and>
   map h_Entered (home_detect refs medicines_list) = medicines_list \<and>
   home_detect refs medicines_list = map (home_match refs) medicines_list"
proof -
  let ?rd = "map strip (dropna cells)"
  let ?rn = "normalize_series ?rd"
  have len: "length ?rd = length ?rn" by (simp add: normalize_series_def)
  from detect_all2 [of cells entered_list] obtain rs where
    rs: "detect cells entered_list = Inr rs"
    and all2: "list_all2 (\<lambda>m r. match_one ?rd ?rn m = Inr r) entered_list rs"
    by blast
  have l: "length rs = length entered_list"
    using all2 by (simp add: list_all2_lengthD)
  have "\<forall>i<length rs. Entered (rs ! i) = entered_list ! i"
  proof (intro allI impI)
    fix i assume i: "i < length rs"
    then have m: "match_one ?rd ?rn (entered_list ! i) = Inr (rs ! i)"
      using list_all2_nthD2 [OF all2 i] by simp
    from match_one_total [OF len, of "entered_list ! i"] m
    show "Entered (rs ! i) = entered_list ! i" by auto
  qed
  then have e: "map Entered rs = entered_list"
    using l by (simp add: list_eq_iff_nth_eq)
  have he: "h_Entered (home_match refs med) = med" for med
    by (simp add: home_match_def split: prod.split)
  have h: "map h_Entered (home_detect refs medicines_list) = medicines_list"
    by (simp add: home_detect_map he map_idI)
  from rs all2 l e h show ?thesis
    by (simp add: home_detect_map)
qed

text \<open>
  Claim C4. When the reference set is empty (in app.py: no cell is left after the missing
  values are dropped), every entered name gets the result with the sentinel as closest
  match (the dash of app.py, \<open>None\<close> in Home.py), score 0 and the mismatch status.
\<close>

theorem C4_empty_reference:
  assumes "dropna cells = []"
  shows "detect cells entered_list =
           Inr (map (\<lambda>med. \<lparr>Entered = med, Closest_Match = sentinel,
                              Match_Score = 0, Status = Mismatch\<rparr>) entered_list) \<and>
         home_detect [] medicines_list =
           map (\<lambda>med. \<lparr>h_Entered = med, h_Closest_Match = None,
                         h_Match_Score = 0, h_Mismatch = Yes\<rparr>) medicines_list"
proof -
  have loop: "detect_loop [] [] acc meds =
      Inr (acc @ map (\<lambda>med. \<lparr>Entered = med, Closest_Match = sentinel,
                              Match_Score = 0, Status = Mismatch\<rparr>) meds)" for acc meds
    by (induction meds arbitrary: acc) (simp_all add: match_one_empty)
  have "detect cells entered_list =
           Inr (map (\<lambda>med. \<lparr>Entered = med, Closest_Match = sentinel,
                              Match_Score = 0, Status = Mismatch\<rparr>) entered_list)"
    using assms loop [of "[]" entered_list]
    by (simp add: detect_def normalize_series_def)
  moreover have "home_match [] med = \<lparr>h_Entered = med, h_Closest_Match = None,
                         h_Match_Score = 0, h_Mismatch = Yes\<rparr>" for med
    by (simp add: home_match_def)
  ultimately show ?thesis by (simp add: home_detect_map)
qed

text \<open>
  Claim C4 at a reference column holding one missing value, and at the empty list.
\<close>

theorem C4_empty_reference_witness:
  "dropna [None] = [] \<and>
   detect [None] [''Paracetamol'', ''Qwk''] =
     Inr [\<lparr>Entered = ''Paracetamol'', Closest_Match = sentinel, Match_Score = 0, Status = Mismatch\<rparr>,
          \<lparr>Entered = ''Qwk'', Closest_Match = sentinel, Match_Score = 0, Status = Mismatch\<rparr>] \<and>
   home_detect [] [''Paracetamol''] =
     [\<lparr>h_Entered = ''Paracetamol'', h_Closest_Match = None, h_Match_Score = 0, h_Mismatch = Yes\<rparr>]"
proof -
  have h: "dropna [None] = []" by (simp add: dropna_def)
  show ?thesis
    using h C4_empty_reference [OF h, of "[''Paracetamol'', ''Qwk'']" "[''Paracetamol'']"]
    by simp
qed

text \<open>
  Claim C1 fails on Home.py. Entered against the built-in table, "Parasetamol" scores
  1000/11 (about 90.9); the table of the claim gives Possible Mismatch at that score, and
  Home.py sets the flag "No", which its Analytics page counts as Correct.
\<close>

theorem C1_counterexample:
  "home_match medicine_df ''Parasetamol'' =
     \<lparr>h_Entered = ''Parasetamol'', h_Closest_Match = Some ''Paracetamol'',
      h_Match_Score = 1000 / 11, h_Mismatch = No\<rparr> \<and>
   home_status No = Correct \<and>
   status_of (1000 / 11) = Possible_Mismatch"
  by (simp add: home_eval home_status_def status_of_def string_eval lcs_eval
        del: lcs_len.simps)

text \<open>
  Claim C1, amended. In app.py the status of every result is a function of its score
  alone, by the fixed thresholds: Correct from 95, Possible Mismatch from 70 and below 95,
  Mismatch below 70 (the result without a reference match has score 0 and status
  Mismatch, which is the same function). In Home.py the result carries a two-valued
  mismatch flag, which is a function of the best score by the one threshold 90: "Yes"
  below 90, "No" from 90.
\<close>

theorem C1_status_from_score:
  "(\<exists>rs. detect cells entered_list = Inr rs \<and>
         (\<forall>r\<in>set rs. Status r = status_of (Match_Score r))) \<and>
   (status_of score = Correct \<longleftrightarrow> 95 \<le> score) \<and>
   (status_of score = Possible_Mismatch \<longleftrightarrow> 70 \<le> score \<and> score < 95) \<and>
   (status_of score = Mismatch \<longleftrightarrow> score < 70) \<and>
   (\<forall>r\<in>set (home_detect refs medicines_list).
       h_Mismatch r = (if h_Match_Score r < 90 then Yes else No))"
proof -
  from detect_result_props [of cells entered_list]
  have a: "\<exists>rs. detect cells entered_list = Inr rs \<and>
         (\<forall>r\<in>set rs. Status r = status_of (Match_Score r))"
    by blast
  have b: "(status_of score = Correct \<longleftrightarrow> 95 \<le> score) \<and>
   (status_of score = Possible_Mismatch \<longleftrightarrow> 70 \<le> score \<and> score < 95) \<and>
   (status_of score = Mismatch \<longleftrightarrow> score < 70)"
    by (simp add: status_of_def)
  have "h_Mismatch (home_match refs med) =
      (if h_Match_Score (home_match refs med) < 90 then Yes else No)" for med
    by (simp add: home_match_def split: prod.split)
  then have c: "\<forall>r\<in>set (home_detect refs medicines_list).
       h_Mismatch r = (if h_Match_Score r < 90 then Yes else No)"
    by (auto simp: home_detect_map)
  from a b c show ?thesis by blast
qed

text \<open>
  Claim C1 (amended) on one entered name, in both detectors.
\<close>

theorem C1_status_from_score_witness:
  "detect [Some ''Paracetamol''] [''Parasetamol''] =
     Inr [\<lparr>Entered = ''Parasetamol'', Closest_Match = ''Paracetamol'',
           Match_Score = 1000 / 11, Status = Possible_Mismatch\<rparr>] \<and>
   status_of (1000 / 11) = Possible_Mismatch \<and>
   home_detect medicine_df [''Parasetamol''] =
     [\<lparr>h_Entered = ''Parasetamol'', h_Closest_Match = Some ''Paracetamol'',
       h_Match_Score = 1000 / 11, h_Mismatch = No\<rparr>] \<and>
   \<not> (1000 / 11 < (90 :: rat))"
proof -
  have d: "detect [Some ''Paracetamol''] [''Parasetamol''] =
     Inr [\<lparr>Entered = ''Parasetamol'', Closest_Match = ''Paracetamol'',
           Match_Score = 1000 / 11, Status = Possible_Mismatch\<rparr>]"
    by (simp add: app_eval string_eval lcs_eval del: lcs_len.simps)
  have h: "home_detect medicine_df [''Parasetamol''] =
     [\<lparr>h_Entered = ''Parasetamol'', h_Closest_Match = Some ''Paracetamol'',
       h_Match_Score = 1000 / 11, h_Mismatch = No\<rparr>]"
    by (simp add: home_detect_def home_eval string_eval lcs_eval del: lcs_len.simps)
  show ?thesis
    using C1_status_from_score [of "[Some ''Paracetamol'']" "[''Parasetamol'']" "1000 / 11"
        medicine_df "[''Parasetamol'']"] d h
    by simp
qed

text \<open>
  Claim C5. The similarity score of every pair of strings lies in [0, 100], for the
  token-sort ratio of app.py and for the plain ratio of Home.py, and so does the score
  field of every result of either detector.
\<close>

theorem C5_score_in_range:
  "(0 \<le> token_sort_ratio s1 s2 \<and> token_sort_ratio s1 s2 \<le> 100) \<and>
   (0 \<le> home_score med ref \<and> home_score med ref \<le> 100) \<and>
   (\<exists>rs. detect cells entered_list = Inr rs \<and>
         (\<forall>r\<in>set rs. 0 \<le> Match_Score r \<and> Match_Score r \<le> 100)) \<and>
   (\<forall>r\<in>set (home_detect refs medicines_list).
       0 \<le> h_Match_Score r \<and> h_Match_Score r \<le> 100)"
proof -
  from detect_result_props [of cells entered_list]
  have a: "\<exists>rs. detect cells entered_list = Inr rs \<and>
         (\<forall>r\<in>set rs. 0 \<le> Match_Score r \<and> Match_Score r \<le> 100)"
    by blast
  have "h_Match_Score (home_match refs m) = snd (best_loop m (None, 0) refs)" for m
    by (simp add: home_match_def split: prod.split)
  then have "0 \<le> h_Match_Score (home_match refs m) \<and> h_Match_Score (home_match refs m) \<le> 100"
    for m
    using best_loop_score_bounds [of m refs] by simp
  then have c: "\<forall>r\<in>set (home_detect refs medicines_list).
       0 \<le> h_Match_Score r \<and> h_Match_Score r \<le> 100"
    by (auto simp: home_detect_map)
  from a c show ?thesis
    using token_sort_ratio_bounds [of s1 s2] home_score_bounds [of med ref] by blast
qed

text \<open>
  Claim C5 on one entered name per detector.
\<close>

theorem C5_score_in_range_witness:
  "detect [Some ''Paracetamol''] [''Parasetamol''] =
     Inr [\<lparr>Entered = ''Parasetamol'', Closest_Match = ''Paracetamol'',
           Match_Score = 1000 / 11, Status = Possible_Mismatch\<rparr>] \<and>
   home_detect medicine_df [''Qwk''] =
     [\<lparr>h_Entered = ''Qwk'', h_Closest_Match = None, h_Match_Score = 0, h_Mismatch = Yes\<rparr>] \<and>
   (0 :: rat) \<le> 1000 / 11 \<and> (1000 / 11 :: rat) \<le> 100 \<and>
   0 \<le> home_score ''Qwk'' ''Paracetamol'' \<and> home_score ''Qwk'' ''Paracetamol'' \<le> 100"
proof -
  have d: "detect [Some ''Paracetamol''] [''Parasetamol''] =
     Inr [\<lparr>Entered = ''Parasetamol'', Closest_Match = ''Paracetamol'',
           Match_Score = 1000 / 11, Status = Possible_Mismatch\<rparr>]"
    by (simp add: app_eval string_eval lcs_eval del: lcs_len.simps)
  have h: "home_detect medicine_df [''Qwk''] =
     [\<lparr>h_Entered = ''Qwk'', h_Closest_Match = None, h_Match_Score = 0, h_Mismatch = Yes\<rparr>]"
    by (simp add: home_detect_def home_eval string_eval lcs_eval del: lcs_len.simps)
  show ?thesis
    using C5_score_in_range [of "''Qwk''" "''Paracetamol''" "''Qwk''" "''Paracetamol''"
        "[Some ''Paracetamol'']" "[''Parasetamol'']" medicine_df "[''Qwk'']"] d h
    by simp
qed

text \<open>
  Claim C10. In the Home.py detector the best score starts at 0 and is replaced only by
  a strictly greater score, so an entered name that scores 0 against every reference
  entry gets the closest match \<open>None\<close>, the score 0 and the flag "Yes", whatever the
  length of the reference list.
\<close>

theorem C10_home_sentinel_on_zero_scores:
  assumes "\<forall>ref\<in>set refs. home_score med ref = 0"
  shows "home_match refs med =
           \<lparr>h_Entered = med, h_Closest_Match = None, h_Match_Score = 0, h_Mismatch = Yes\<rparr>"
  using best_loop_all_zero [OF assms] by (simp add: home_match_def)

text \<open>
  Claim C10 on the built-in (non-empty) table: "Qwk" shares no letter with any name.
\<close>

theorem C10_home_sentinel_on_zero_scores_witness:
  "medicine_df \<noteq> [] \<and>
   list_all (\<lambda>ref. home_score ''Qwk'' ref = 0) medicine_df \<and>
   home_match medicine_df ''Qwk'' =
     \<lparr>h_Entered = ''Qwk'', h_Closest_Match = None, h_Match_Score = 0, h_Mismatch = Yes\<rparr>"
proof -
  have z: "\<forall>ref\<in>set medicine_df. home_score ''Qwk'' ref = 0"
    by (simp add: medicine_df_def home_score_def ratio_def string_eval lcs_eval
          del: lcs_len.simps)
  have n: "medicine_df \<noteq> []" by (simp add: medicine_df_def)
  show ?thesis
    using z n C10_home_sentinel_on_zero_scores [OF z] by (simp add: list_all_iff)
qed

text \<open>
  Claim C2 fails on Home.py, whose score is the plain ratio: for the entered name
  "Min met" and the reference name "Metformin" of the built-in table it is 75/2, while
  the token-sort ratio of the same pair is 75.
\<close>

theorem C2_counterexample:
  "''Metformin'' \<in> set medicine_df \<and>
   home_score ''Min met'' ''Metformin'' = 75 / 2 \<and>
   token_sort_ratio (lower ''Min met'') (lower ''Metformin'') = 75"
  by (simp add: medicine_df_def home_score_def token_sort_ratio_def ratio_def
        string_eval lcs_eval del: lcs_len.simps)

text \<open>
  Claim C2, amended. In app.py the similarity score is the token-sort ratio of the
  normalized strings: each string is split into whitespace-delimited tokens, the tokens
  are sorted and rejoined with single spaces, and the normalized similarity scaled to
  0-100 is taken; two strings whose tokens are reorderings of each other score exactly
  100, and an entered name that is a token reordering of some reference name gets a
  result of score 100 and status Correct. In Home.py the score is the plain ratio of the
  lower-cased strings, without token sorting; strings equal up to case score 100.
\<close>

theorem C2_token_sort_score:
  "token_sort_ratio s1 s2 =
     ratio (join '' '' (sort (split_ws s1))) (join '' '' (sort (split_ws s2))) \<and>
   (mset (split_ws s1) = mset (split_ws s2) \<longrightarrow> token_sort_ratio s1 s2 = 100) \<and>
   (length rd = length rn \<and> ref \<in> set rn \<and>
    mset (split_ws (lower (strip med))) = mset (split_ws ref) \<longrightarrow>
      (\<exists>r. match_one rd rn med = Inr r \<and> Match_Score r = 100 \<and> Status r = Correct)) \<and>
   home_score med' ref' = ratio (lower med') (lower ref') \<and>
   (lower med' = lower ref' \<longrightarrow> home_score med' ref' = 100)"
proof -
  have a: "token_sort_ratio s1 s2 =
     ratio (join '' '' (sort (split_ws s1))) (join '' '' (sort (split_ws s2)))"
    by (simp add: token_sort_ratio_def)
  have b: "mset (split_ws s1) = mset (split_ws s2) \<longrightarrow> token_sort_ratio s1 s2 = 100"
    by (simp add: token_sort_ratio_reordered)
  have c: "\<exists>r. match_one rd rn med = Inr r \<and> Match_Score r = 100 \<and> Status r = Correct"
    if len: "length rd = length rn" and mem: "ref \<in> set rn"
      and re: "mset (split_ws (lower (strip med))) = mset (split_ws ref)"
  proof -
    from mem have ne: "rn \<noteq> []" by auto
    from match_one_first_max [OF ne len, of med]
    obtain i where i: "i < length rn"
      and m: "match_one rd rn med =
             Inr \<lparr>Entered = med, Closest_Match = rd ! i,
                  Match_Score = token_sort_ratio (lower (strip med)) (rn ! i),
                  Status = status_of (token_sort_ratio (lower (strip med)) (rn ! i))\<rparr>"
      and mx: "\<forall>x\<in>set rn. token_sort_ratio (lower (strip med)) x
                           \<le> token_sort_ratio (lower (strip med)) (rn ! i)"
      by blast
    have "token_sort_ratio (lower (strip med)) ref = 100"
      using re by (rule token_sort_ratio_reordered)
    then have "100 \<le> token_sort_ratio (lower (strip med)) (rn ! i)"
      using mx mem by auto
    moreover have "token_sort_ratio (lower (strip med)) (rn ! i) \<le> 100"
      by (simp add: token_sort_ratio_bounds)
    ultimately have "token_sort_ratio (lower (strip med)) (rn ! i) = 100" by simp
    with m show ?thesis by (simp add: status_of_100)
  qed
  have d: "home_score med' ref' = ratio (lower med') (lower ref')"
    by (simp add: home_score_def)
  have e: "lower med' = lower ref' \<longrightarrow> home_score med' ref' = 100"
    by (simp add: home_score_def ratio_same)
  from a b c d e show ?thesis by blast
qed

text \<open>
  Claim C2 (amended) on the spec's example, "500mg Paracetamol" against
  "Paracetamol 500mg".
\<close>

theorem C2_token_sort_score_witness:
  "mset (split_ws (lower (strip ''500mg Paracetamol''))) = mset (split_ws ''paracetamol 500mg'') \<and>
   token_sort_ratio (lower (strip ''500mg Paracetamol'')) ''paracetamol 500mg'' = 100 \<and>
   match_one [''Ibuprofen'', ''Paracetamol 500mg''] [''ibuprofen'', ''paracetamol 500mg'']
       ''500mg Paracetamol'' =
     Inr \<lparr>Entered = ''500mg Paracetamol'', Closest_Match = ''Paracetamol 500mg'',
          Match_Score = 100, Status = Correct\<rparr> \<and>
   lower ''PARACETAMOL'' = lower ''Paracetamol'' \<and>
   home_score ''PARACETAMOL'' ''Paracetamol'' = 100"
proof -
  have t: "mset (split_ws (lower (strip ''500mg Paracetamol'')))
             = mset (split_ws ''paracetamol 500mg'')"
    by (simp add: string_eval)
  have l: "lower ''PARACETAMOL'' = lower ''Paracetamol''"
    by (simp add: string_eval)
  have m: "match_one [''Ibuprofen'', ''Paracetamol 500mg''] [''ibuprofen'', ''paracetamol 500mg'']
       ''500mg Paracetamol'' =
     Inr \<lparr>Entered = ''500mg Paracetamol'', Closest_Match = ''Paracetamol 500mg'',
          Match_Score = 100, Status = Correct\<rparr>"
    by (simp add: app_eval string_eval lcs_eval del: lcs_len.simps)
  show ?thesis
    using t l m
      C2_token_sort_score [of "lower (strip ''500mg Paracetamol'')" "''paracetamol 500mg''"
        "[''Ibuprofen'', ''Paracetamol 500mg'']" "[''ibuprofen'', ''paracetamol 500mg'']"
        "''paracetamol 500mg''" "''500mg Paracetamol''" "''PARACETAMOL''" "''Paracetamol''"]
    by simp
qed

text \<open>
  Claim C3 fails on Home.py. The built-in table is not empty and "Jwk" scores 0 against
  each of its names, so all entries tie for the highest score; the loop selects none of
  them.
\<close>

theorem C3_counterexample:
  "medicine_df \<noteq> [] \<and>
   list_all (\<lambda>ref. home_score ''Jwk'' ref = 0) medicine_df \<and>
   h_Closest_Match (home_match medicine_df ''Jwk'') = None"
  by (simp add: home_eval string_eval lcs_eval del: lcs_len.simps)

text \<open>
  Claim C3, amended. In app.py, for every non-empty reference list the selection returns
  the reference entry with the highest score, the first one in reference order among
  those that tie for it (every entry scores at most as much, every earlier entry
  strictly less). In Home.py the same holds whenever some reference entry scores above 0.
\<close>

theorem C3_first_best_match:
  "(dropna cells \<noteq> [] \<longrightarrow>
      (let rd = map strip (dropna cells); rn = normalize_series rd; q = lower (strip med)
       in \<exists>i<length rn.
            match_one rd rn med =
              Inr \<lparr>Entered = med, Closest_Match = rd ! i,
                   Match_Score = token_sort_ratio q (rn ! i),
                   Status = status_of (token_sort_ratio q (rn ! i))\<rparr> \<and>
            (\<forall>x\<in>set rn. token_sort_ratio q x \<le> token_sort_ratio q (rn ! i)) \<and>
            (\<forall>x\<in>set (take i rn). token_sort_ratio q x < token_sort_ratio q (rn ! i)))) \<and>
   ((\<exists>ref\<in>set refs. 0 < home_score med ref) \<longrightarrow>
      (\<exists>i<length refs.
          h_Closest_Match (home_match refs med) = Some (refs ! i) \<and>
          h_Match_Score (home_match refs med) = home_score med (refs ! i) \<and>
          (\<forall>x\<in>set refs. home_score med x \<le> home_score med (refs ! i)) \<and>
          (\<forall>x\<in>set (take i refs). home_score med x < home_score med (refs ! i))))"
proof -
  let ?rd = "map strip (dropna cells)"
  let ?rn = "normalize_series ?rd"
  have len: "length ?rd = length ?rn" by (simp add: normalize_series_def)
  have a: "dropna cells \<noteq> [] \<longrightarrow>
      (let rd = map strip (dropna cells); rn = normalize_series rd; q = lower (strip med)
       in \<exists>i<length rn.
            match_one rd rn med =
              Inr \<lparr>Entered = med, Closest_Match = rd ! i,
                   Match_Score = token_sort_ratio q (rn ! i),
                   Status = status_of (token_sort_ratio q (rn ! i))\<rparr> \<and>
            (\<forall>x\<in>set rn. token_sort_ratio q x \<le> token_sort_ratio q (rn ! i)) \<and>
            (\<forall>x\<in>set (take i rn). token_sort_ratio q x < token_sort_ratio q (rn ! i)))"
  proof
    assume "dropna cells \<noteq> []"
    then have ne: "?rn \<noteq> []" by (simp add: normalize_series_def)
    from match_one_first_max [OF ne len, of med] show "let rd = map strip (dropna cells); rn = normalize_series rd; q = lower (strip med)
       in \<exists>i<length rn.
            match_one rd rn med =
              Inr \<lparr>Entered = med, Closest_Match = rd ! i,
                   Match_Score = token_sort_ratio q (rn ! i),
                   Status = status_of (token_sort_ratio q (rn ! i))\<rparr> \<and>
            (\<forall>x\<in>set rn. token_sort_ratio q x \<le> token_sort_ratio q (rn ! i)) \<and>
            (\<forall>x\<in>set (take i rn). token_sort_ratio q x < token_sort_ratio q (rn ! i))"
      by (simp only: Let_def)
  qed
  have b: "(\<exists>ref\<in>set refs. 0 < home_score med ref) \<longrightarrow>
      (\<exists>i<length refs.
          h_Closest_Match (home_match refs med) = Some (refs ! i) \<and>
          h_Match_Score (home_match refs med) = home_score med (refs ! i) \<and>
          (\<forall>x\<in>set refs. home_score med x \<le> home_score med (refs ! i)) \<and>
          (\<forall>x\<in>set (take i refs). home_score med x < home_score med (refs ! i)))"
  proof
    assume pos: "\<exists>ref\<in>set refs. 0 < home_score med ref"
    from best_loop_first_max [OF pos]
    obtain i where i: "i < length refs"
      and run: "best_loop med (None, 0) refs = (Some (refs ! i), home_score med (refs ! i))"
      and rest: "(\<forall>x\<in>set refs. home_score med x \<le> home_score med (refs ! i)) \<and>
           (\<forall>x\<in>set (take i refs). home_score med x < home_score med (refs ! i))"
      by blast
    have "h_Closest_Match (home_match refs med) = Some (refs ! i) \<and>
          h_Match_Score (home_match refs med) = home_score med (refs ! i)"
      using run by (simp add: home_match_def)
    with i rest show "\<exists>i<length refs.
          h_Closest_Match (home_match refs med) = Some (refs ! i) \<and>
          h_Match_Score (home_match refs med) = home_score med (refs ! i) \<and>
          (\<forall>x\<in>set refs. home_score med x \<le> home_score med (refs ! i)) \<and>
          (\<forall>x\<in>set (take i refs). home_score med x < home_score med (refs ! i))"
      by blast
  qed
  from a b show ?thesis by (rule conjI)
qed

text \<open>
  Claim C3 (amended) where two reference entries tie: the display names "Paracetamol"
  and "PARACETAMOL" normalize to the same string and the first is selected.
\<close>

theorem C3_first_best_match_witness:
  "dropna [Some ''Ibuprofen'', None, Some ''Paracetamol'', Some '' PARACETAMOL ''] \<noteq> [] \<and>
   map strip (dropna [Some ''Ibuprofen'', None, Some ''Paracetamol'', Some '' PARACETAMOL ''])
     = [''Ibuprofen'', ''Paracetamol'', ''PARACETAMOL''] \<and>
   match_one [''Ibuprofen'', ''Paracetamol'', ''PARACETAMOL'']
             (normalize_series [''Ibuprofen'', ''Paracetamol'', ''PARACETAMOL'']) ''Parasetamol'' =
     Inr \<lparr>Entered = ''Parasetamol'', Closest_Match = ''Paracetamol'',
          Match_Score = 1000 / 11, Status = Possible_Mismatch\<rparr> \<and>
   0 < home_score ''Parasetamol'' ''Paracetamol'' \<and>
   ''Paracetamol'' \<in> set medicine_df \<and>
   h_Closest_Match (home_match medicine_df ''Parasetamol'') = Some ''Paracetamol'' \<and>
   h_Match_Score (home_match medicine_df ''Parasetamol'') = 1000 / 11"
proof -
  have d: "dropna [Some ''Ibuprofen'', None, Some ''Paracetamol'', Some '' PARACETAMOL ''] \<noteq> [] \<and>
   map strip (dropna [Some ''Ibuprofen'', None, Some ''Paracetamol'', Some '' PARACETAMOL ''])
     = [''Ibuprofen'', ''Paracetamol'', ''PARACETAMOL'']"
    by (simp add: dropna_def string_eval)
  have m: "match_one [''Ibuprofen'', ''Paracetamol'', ''PARACETAMOL'']
             (normalize_series [''Ibuprofen'', ''Paracetamol'', ''PARACETAMOL'']) ''Parasetamol'' =
     Inr \<lparr>Entered = ''Parasetamol'', Closest_Match = ''Paracetamol'',
          Match_Score = 1000 / 11, Status = Possible_Mismatch\<rparr>"
    by (simp add: app_eval string_eval lcs_eval del: lcs_len.simps)
  have p: "0 < home_score ''Parasetamol'' ''Paracetamol'' \<and> ''Paracetamol'' \<in> set medicine_df"
    by (simp add: home_eval string_eval lcs_eval del: lcs_len.simps)
  have h: "h_Closest_Match (home_match medicine_df ''Parasetamol'') = Some ''Paracetamol'' \<and>
   h_Match_Score (home_match medicine_df ''Parasetamol'') = 1000 / 11"
    by (simp add: home_eval string_eval lcs_eval del: lcs_len.simps)
  show ?thesis
    using d m p h
      C3_first_best_match [of "[Some ''Ibuprofen'', None, Some ''Paracetamol'', Some '' PARACETAMOL '']"
        "''Parasetamol''" medicine_df]
    by simp
qed






text \<open>
  Claim C9. Batch detection is deterministic. In app.py, two runs on the same input from
  sessions with the same reference table give the same outcome (the same result
  sequence, in order and in values), whatever the time stamps, the stored results and the
  history of the sessions are; in particular a second run right after the first gives
  the first run's outcome. In Home.py, whose reference table is fixed, two runs on the
  same entered list give the same result table whatever the time and the history.
\<close>

theorem C9_batch_deterministic:
  "(st_reference_df s = st_reference_df s' \<longrightarrow>
      fst (run now inp s) = fst (run now' inp s')) \<and>
   fst (run now' inp (snd (run now inp s))) = fst (run now inp s) \<and>
   fst (home_run now medicines_list hist) = fst (home_run now' medicines_list hist')"
proof -
  have a: "fst (run now inp s) = fst (run now' inp s')"
    if "st_reference_df s = st_reference_df s'"
  proof -
    have "st_reference_df (set_reference inp s) = st_reference_df (set_reference inp s')"
      using that by (simp add: reference_after_set split: option.split)
    then have "get_reference_df (set_reference inp s) = get_reference_df (set_reference inp s')"
      by (rule get_reference_df_cong)
    then show ?thesis by (simp add: run_outcome)
  qed
  have "st_reference_df (set_reference inp (snd (run now inp s)))
          = st_reference_df (set_reference inp s)"
    by (simp add: reference_after_set reference_after_run split: option.split)
  then have "get_reference_df (set_reference inp (snd (run now inp s)))
          = get_reference_df (set_reference inp s)"
    by (rule get_reference_df_cong)
  then have b: "fst (run now' inp (snd (run now inp s))) = fst (run now inp s)"
    by (simp add: run_outcome)
  have c: "fst (home_run now medicines_list hist) = fst (home_run now' medicines_list hist')"
    by (simp add: home_run_def Let_def)
  from a b c show ?thesis by blast
qed

text \<open>
  Claim C9 on two sessions with the same uploaded reference and different histories.
\<close>

theorem C9_batch_deterministic_witness:
  "st_reference_df
      \<lparr>st_results = [],
       st_reference_df = Some (Some [Some ''Ibuprofen'', Some ''Paracetamol'']),
       history_file = []\<rparr>
     = st_reference_df
         \<lparr>st_results = [],
          st_reference_df = Some (Some [Some ''Ibuprofen'', Some ''Paracetamol'']),
          history_file = [(''2023-12-31 09:00:00'',
             \<lparr>Entered = ''Qwk'', Closest_Match = ''Triphala'', Match_Score = 20,
              Status = Mismatch\<rparr>)]\<rparr> \<and>
   fst (run ''2024-01-01 10:00:00'' \<lparr>uploaded = None, user_input = ''Parasetamol''\<rparr>
          \<lparr>st_results = [],
           st_reference_df = Some (Some [Some ''Ibuprofen'', Some ''Paracetamol'']),
           history_file = []\<rparr>)
     = Detected [\<lparr>Entered = ''Parasetamol'', Closest_Match = ''Paracetamol'',
                  Match_Score = 1000 / 11, Status = Possible_Mismatch\<rparr>] \<and>
   fst (run ''2024-01-02 11:30:00'' \<lparr>uploaded = None, user_input = ''Parasetamol''\<rparr>
          \<lparr>st_results = [],
           st_reference_df = Some (Some [Some ''Ibuprofen'', Some ''Paracetamol'']),
           history_file = [(''2023-12-31 09:00:00'',
             \<lparr>Entered = ''Qwk'', Closest_Match = ''Triphala'', Match_Score = 20,
              Status = Mismatch\<rparr>)]\<rparr>)
     = Detected [\<lparr>Entered = ''Parasetamol'', Closest_Match = ''Paracetamol'',
                  Match_Score = 1000 / 11, Status = Possible_Mismatch\<rparr>]"
proof -
  have b: "build_entered \<lparr>uploaded = None, user_input = ''Parasetamol''\<rparr> = [''Parasetamol'']"
    by (simp add: build_entered_def string_eval)
  have d: "detect [Some ''Ibuprofen'', Some ''Paracetamol''] [''Parasetamol'']
     = Inr [\<lparr>Entered = ''Parasetamol'', Closest_Match = ''Paracetamol'',
                  Match_Score = 1000 / 11, Status = Possible_Mismatch\<rparr>]"
    by (simp add: app_eval string_eval lcs_eval del: lcs_len.simps)
  have r: "fst (run ''2024-01-01 10:00:00'' \<lparr>uploaded = None, user_input = ''Parasetamol''\<rparr>
          \<lparr>st_results = [],
           st_reference_df = Some (Some [Some ''Ibuprofen'', Some ''Paracetamol'']),
           history_file = []\<rparr>)
     = Detected [\<lparr>Entered = ''Parasetamol'', Closest_Match = ''Paracetamol'',
                  Match_Score = 1000 / 11, Status = Possible_Mismatch\<rparr>]"
    by (simp add: run_outcome b d set_reference_def get_reference_df_def)
  show ?thesis
    using r C9_batch_deterministic [of
        "\<lparr>st_results = [],
           st_reference_df = Some (Some [Some ''Ibuprofen'', Some ''Paracetamol'']),
           history_file = []\<rparr>"
        "\<lparr>st_results = [],
           st_reference_df = Some (Some [Some ''Ibuprofen'', Some ''Paracetamol'']),
           history_file = [(''2023-12-31 09:00:00'',
             \<lparr>Entered = ''Qwk'', Closest_Match = ''Triphala'', Match_Score = 20,
              Status = Mismatch\<rparr>)]\<rparr>"
        "''2024-01-01 10:00:00''" "\<lparr>uploaded = None, user_input = ''Parasetamol''\<rparr>"
        "''2024-01-02 11:30:00''"]
    by simp
qed

end
